theory Spec2Isabelle
  imports Complex_Main
begin

section \<open>The update core of skgym: target construction and Monte Carlo replay\<close>

text \<open>
  A shallow embedding of \<^verbatim>\<open>src/skgym/algorithms/base.py\<close> (\<^verbatim>\<open>BaseValueAlgorithm\<close>) and
  \<^verbatim>\<open>src/skgym/algorithms/monte_carlo.py\<close> (\<^verbatim>\<open>MonteCarlo\<close>).

  Numbers: Python floats are modelled as exact reals; rounding is not modelled.
  An action is an integer index. Exceptions are values of the type \<open>error\<close>; a
  method that mutates an object returns the object updated, and a raised exception is
  returned together with the state reached when it was raised.
\<close>

subsection \<open>Errors\<close>

datatype error =
    TypeError                 \<comment> \<open>\<^verbatim>\<open>BaseValueAlgorithm.__init__\<close>: neither value function nor policy\<close>
  | ValueError_bad_MODELTYPE  \<comment> \<open>\<^verbatim>\<open>raise ValueError("bad MODELTYPE")\<close>\<close>
  | UnboundLocalError         \<comment> \<open>reading a local variable that no branch has assigned\<close>
  | ValueError_broadcast      \<comment> \<open>numpy: operands or value could not be broadcast\<close>
  | IndexError                \<comment> \<open>numpy: index out of bounds\<close>
  | EmptyCacheError           \<comment> \<open>\<^verbatim>\<open>ExperienceCache.pop\<close> on an empty cache\<close>

subsection \<open>numpy values\<close>

text \<open>
  The return \<^verbatim>\<open>G\<close> is the Python scalar \<^verbatim>\<open>0\<close> when the replay starts and a
  one-dimensional array afterwards. A target \<^verbatim>\<open>Y\<close> is \<^verbatim>\<open>G\<close> itself (type I) or a
  two-dimensional array, a list of rows (type II).
\<close>

datatype returns = Scalar real | Arr1 "real list"

datatype target = TargetI returns | TargetII "real list list"

text \<open>\<^verbatim>\<open>self.gamma * G\<close>\<close>

fun np_scale :: "real \<Rightarrow> returns \<Rightarrow> returns" where
  "np_scale c (Scalar g) = Scalar (c * g)"
| "np_scale c (Arr1 gs) = Arr1 (map (\<lambda>g. c * g) gs)"

text \<open>
  \<^verbatim>\<open>R + v\<close> for a one-dimensional array \<^verbatim>\<open>R\<close>: elementwise, a scalar or an array of
  length one is broadcast, any other pair of different lengths raises.
\<close>

fun np_add :: "real list \<Rightarrow> returns \<Rightarrow> error + returns" where
  "np_add R (Scalar c) = Inr (Arr1 (map (\<lambda>r. r + c) R))"
| "np_add R (Arr1 gs) =
     (if length R = length gs then Inr (Arr1 (map (\<lambda>(r, g). r + g) (zip R gs)))
      else if length R = 1 then Inr (Arr1 (map (\<lambda>g. hd R + g) gs))
      else if length gs = 1 then Inr (Arr1 (map (\<lambda>r. r + hd gs) R))
      else Inl ValueError_broadcast)"

text \<open>An index into an axis of length \<open>n\<close>: negative indices count from the end.\<close>

definition np_index :: "nat \<Rightarrow> int \<Rightarrow> nat option" where
  "np_index n i =
     (if 0 \<le> i \<and> i < int n then Some (nat i)
      else if - int n \<le> i \<and> i < 0 then Some (nat (i + int n))
      else None)"

text \<open>The value of an indexed assignment, broadcast to the \<open>n\<close> indexed places.\<close>

fun broadcast_to :: "returns \<Rightarrow> nat \<Rightarrow> error + real list" where
  "broadcast_to (Scalar c) n = Inr (replicate n c)"
| "broadcast_to (Arr1 gs) n =
     (if length gs = n then Inr gs
      else if length gs = 1 then Inr (replicate n (hd gs))
      else Inl ValueError_broadcast)"

text \<open>
  \<^verbatim>\<open>Y[idx, A] = G\<close> with \<^verbatim>\<open>idx = np.arange(A.shape[0])\<close>: row \<open>i\<close> gets its value at
  column \<^verbatim>\<open>A[i]\<close>. The second argument pairs \<^verbatim>\<open>A[i]\<close> with the broadcast value for
  row \<open>i\<close>. A row index past the last row, or a column out of bounds, raises.
\<close>

fun set_taken :: "real list list \<Rightarrow> (int \<times> real) list \<Rightarrow> error + real list list" where
  "set_taken rows [] = Inr rows"
| "set_taken [] ((a, v) # avs) = Inl IndexError"
| "set_taken (row # rows) ((a, v) # avs) =
     (case np_index (length row) a of
        None \<Rightarrow> Inl IndexError
      | Some j \<Rightarrow>
          (case set_taken rows avs of
             Inl e \<Rightarrow> Inl e
           | Inr rows' \<Rightarrow> Inr (row[j := v] # rows')))"

definition assign_taken :: "real list list \<Rightarrow> int list \<Rightarrow> returns \<Rightarrow> error + real list list" where
  "assign_taken rows A G =
     (case broadcast_to G (length A) of
        Inl e \<Rightarrow> Inl e
      | Inr vs \<Rightarrow> set_taken rows (zip A vs))"

subsection \<open>The collaborators\<close>

text \<open>
  Modelled from the spec: the value function (\<^verbatim>\<open>skgym/value_functions/base.py\<close>, the class
  \<^verbatim>\<open>BaseValueFunction\<close>) is not among the sources. Following section 6 of the
  specification it is taken as a parameter: a model-kind tag \<^verbatim>\<open>MODELTYPE\<close>, the feature
  extraction \<^verbatim>\<open>X\<close> (called as \<^verbatim>\<open>X(s, a)\<close> and as \<^verbatim>\<open>X(s)\<close>, the action is optional),
  \<^verbatim>\<open>preprocess_typeII\<close>, \<^verbatim>\<open>batch_eval\<close>, which reads the approximator's parameters
  \<open>'w\<close>, and \<^verbatim>\<open>update\<close>, which changes them. Feature extraction is pure.
\<close>

record ('s, 'x, 'xn, 'w) value_function =
  MODELTYPE :: int
  vf_X :: "'s \<Rightarrow> int option \<Rightarrow> 'x"
  vf_preprocess_typeII :: "'s \<Rightarrow> 'xn"
  vf_batch_eval :: "'w \<Rightarrow> 'x \<Rightarrow> real list list"
  vf_update :: "'x \<Rightarrow> target \<Rightarrow> 'w \<Rightarrow> 'w"

text \<open>
  Modelled from the spec: the value-based policy (\<^verbatim>\<open>skgym/policies/value_based.py\<close>, the
  class \<^verbatim>\<open>ValuePolicy\<close>) is not among the sources; section 6 of the specification says it
  exposes a back-reference to the value function it wraps.
\<close>

record ('s, 'x, 'xn, 'w) ValuePolicy =
  value_function :: "('s, 'x, 'xn, 'w) value_function"

text \<open>
  What the constructor can be handed: an instance of \<^verbatim>\<open>ValuePolicy\<close>, an instance of
  \<^verbatim>\<open>BaseValueFunction\<close>, or an object that is an instance of neither.
\<close>

datatype ('s, 'x, 'xn, 'w) py_object =
    ValuePolicy_instance "('s, 'x, 'xn, 'w) ValuePolicy"
  | BaseValueFunction_instance "('s, 'x, 'xn, 'w) value_function"
  | Other_instance

text \<open>
  The calls the algorithm makes on the approximator are recorded in a trace, in call
  order, next to the approximator's parameters.
\<close>

datatype 'x event = batch_eval_called 'x | update_called 'x target

record ('x, 'w) world =
  params :: 'w
  trace :: "'x event list"

fun update_calls :: "'x event list \<Rightarrow> ('x \<times> target) list" where
  "update_calls [] = []"
| "update_calls (update_called X Yv # evs) = (X, Yv) # update_calls evs"
| "update_calls (batch_eval_called X # evs) = update_calls evs"

fun batch_eval_calls :: "'x event list \<Rightarrow> 'x list" where
  "batch_eval_calls [] = []"
| "batch_eval_calls (batch_eval_called X # evs) = X # batch_eval_calls evs"
| "batch_eval_calls (update_called X Yv # evs) = batch_eval_calls evs"

subsection \<open>The experience cache\<close>

text \<open>
  Modelled from the spec: \<^verbatim>\<open>ExperienceCache\<close> (\<^verbatim>\<open>skgym/utils\<close>) is not among the sources.
  Section 4.3 of the specification: an ordered buffer; \<^verbatim>\<open>append\<close> adds one preprocessed
  transition to the end (with \<^verbatim>\<open>overflow='grow'\<close> every append is accepted); \<^verbatim>\<open>pop\<close>
  removes and returns the most recently appended one and fails on an empty cache; the
  cache is true exactly when it is not empty.
\<close>

type_synonym ('x, 'xn) transition = "'x \<times> int list \<times> real list \<times> 'xn"

type_synonym ('x, 'xn) ExperienceCache = "('x, 'xn) transition list"

definition cache_append ::
  "('x, 'xn) ExperienceCache \<Rightarrow> ('x, 'xn) transition \<Rightarrow> ('x, 'xn) ExperienceCache" where
  "cache_append c t = c @ [t]"

definition cache_pop ::
  "('x, 'xn) ExperienceCache \<Rightarrow> error + (('x, 'xn) transition \<times> ('x, 'xn) ExperienceCache)" where
  "cache_pop c = (if c = [] then Inl EmptyCacheError else Inr (last c, butlast c))"

definition cache_bool :: "('x, 'xn) ExperienceCache \<Rightarrow> bool" where
  "cache_bool c = (c \<noteq> [])"

subsection \<open>\<^verbatim>\<open>BaseValueAlgorithm\<close> and \<^verbatim>\<open>MonteCarlo\<close>\<close>

record ('s, 'x, 'xn, 'w) MonteCarlo =
  experience_cache :: "('x, 'xn) ExperienceCache"
  policy :: "('s, 'x, 'xn, 'w) ValuePolicy option"
  value_function :: "('s, 'x, 'xn, 'w) value_function"
  gamma :: real

text \<open>
  \<^verbatim>\<open>MonteCarlo.__init__\<close>: the cache is created, then \<^verbatim>\<open>BaseValueAlgorithm.__init__\<close>
  resolves the argument (the policy test comes first) and \<^verbatim>\<open>BaseAlgorithm.__init__\<close>
  stores \<^verbatim>\<open>gamma\<close>.
\<close>

definition MonteCarlo_init ::
  "('s, 'x, 'xn, 'w) py_object \<Rightarrow> real \<Rightarrow> error + ('s, 'x, 'xn, 'w) MonteCarlo" where
  "MonteCarlo_init value_function_or_policy g =
     (case value_function_or_policy of
        ValuePolicy_instance p \<Rightarrow>
          Inr \<lparr>experience_cache = [], policy = Some p,
               value_function = ValuePolicy.value_function p, gamma = g\<rparr>
      | BaseValueFunction_instance v \<Rightarrow>
          Inr \<lparr>experience_cache = [], policy = None, value_function = v, gamma = g\<rparr>
      | Other_instance \<Rightarrow> Inl TypeError)"

text \<open>\<^verbatim>\<open>BaseValueAlgorithm.preprocess_transition\<close>\<close>

definition preprocess_transition ::
  "('s, 'x, 'xn, 'w) MonteCarlo \<Rightarrow> 's \<Rightarrow> int \<Rightarrow> real \<Rightarrow> 's \<Rightarrow> error + ('x, 'xn) transition" where
  "preprocess_transition self s a r s_next =
     (let v = MonteCarlo.value_function self in
      if MODELTYPE v = 1 then
        Inr (vf_X v s (Some a), [a], [r], vf_preprocess_typeII v s_next)
      else if MODELTYPE v = 2 then
        Inr (vf_X v s None, [a], [r], vf_preprocess_typeII v s_next)
      else Inl ValueError_bad_MODELTYPE)"

text \<open>
  \<^verbatim>\<open>BaseValueAlgorithm.Y\<close>. The method has no \<^verbatim>\<open>else\<close> branch: for any other model kind
  \<^verbatim>\<open>return Y\<close> reads a local variable that was never assigned.
\<close>

definition BaseValueAlgorithm_Y ::
  "('s, 'x, 'xn, 'w) MonteCarlo \<Rightarrow> 'x \<Rightarrow> int list \<Rightarrow> returns \<Rightarrow> ('x, 'w) world
     \<Rightarrow> (error + target) \<times> ('x, 'w) world" where
  "BaseValueAlgorithm_Y self X A G w =
     (let v = MonteCarlo.value_function self in
      if MODELTYPE v = 1 then (Inr (TargetI G), w)
      else if MODELTYPE v = 2 then
        (let w1 = w\<lparr>trace := trace w @ [batch_eval_called X]\<rparr> in
         case assign_taken (vf_batch_eval v (params w) X) A G of
           Inl e \<Rightarrow> (Inl e, w1)
         | Inr rows \<Rightarrow> (Inr (TargetII rows), w1))
      else (Inl UnboundLocalError, w))"

text \<open>\<^verbatim>\<open>self.value_function.update(X, Y)\<close>\<close>

definition call_update ::
  "('s, 'x, 'xn, 'w) MonteCarlo \<Rightarrow> 'x \<Rightarrow> target \<Rightarrow> ('x, 'w) world \<Rightarrow> ('x, 'w) world" where
  "call_update self X Yv w =
     w\<lparr>params := vf_update (MonteCarlo.value_function self) X Yv (params w),
       trace := trace w @ [update_called X Yv]\<rparr>"

text \<open>
  The loop of \<^verbatim>\<open>MonteCarlo.update\<close>: \<^verbatim>\<open>while self.experience_cache:\<close> pop, accumulate the
  return, build the target, update the approximator. An exception leaves the loop with
  the cache and the approximator as they are at that point.
\<close>

function replay ::
  "('s, 'x, 'xn, 'w) MonteCarlo \<Rightarrow> returns \<Rightarrow> ('x, 'w) world
     \<Rightarrow> error option \<times> ('s, 'x, 'xn, 'w) MonteCarlo \<times> ('x, 'w) world" where
  "replay self G w =
     (if cache_bool (experience_cache self) then
        (case cache_pop (experience_cache self) of
           Inl e \<Rightarrow> (Some e, self, w)
         | Inr ((X, A, R, X_next), c) \<Rightarrow>
             (let self1 = self\<lparr>experience_cache := c\<rparr> in
              case np_add R (np_scale (gamma self1) G) of
                Inl e \<Rightarrow> (Some e, self1, w)
              | Inr G1 \<Rightarrow>
                  (case BaseValueAlgorithm_Y self1 X A G1 w of
                     (Inl e, w1) \<Rightarrow> (Some e, self1, w1)
                   | (Inr Yv, w1) \<Rightarrow> replay self1 G1 (call_update self1 X Yv w1))))
      else (None, self, w))"
  by pat_completeness auto
termination
  by (relation "measure (\<lambda>(self, G, w). length (experience_cache self))")
     (auto simp: cache_pop_def cache_bool_def split: if_splits)

text \<open>\<^verbatim>\<open>MonteCarlo.update(s, a, r, s_next, done)\<close>\<close>

definition MonteCarlo_update ::
  "'s \<Rightarrow> int \<Rightarrow> real \<Rightarrow> 's \<Rightarrow> bool \<Rightarrow> ('s, 'x, 'xn, 'w) MonteCarlo \<Rightarrow> ('x, 'w) world
     \<Rightarrow> error option \<times> ('s, 'x, 'xn, 'w) MonteCarlo \<times> ('x, 'w) world" where
  "MonteCarlo_update s a r s_next done self w =
     (case preprocess_transition self s a r s_next of
        Inl e \<Rightarrow> (Some e, self, w)
      | Inr t \<Rightarrow>
          (let self1 = self\<lparr>experience_cache := cache_append (experience_cache self) t\<rparr> in
           if \<not> done then (None, self1, w)
           else replay self1 (Scalar 0) w))"

declare replay.simps [simp del]

subsection \<open>Episodes\<close>

text \<open>
  The surrounding training loop calls \<^verbatim>\<open>update\<close> once per environment step: a step is
  \<^verbatim>\<open>(s, a, r, s_next)\<close>. \<open>accumulate\<close> makes the calls with \<^verbatim>\<open>done=False\<close>, in order,
  and stops at the first call that raises; \<open>run_episode\<close> makes them for all steps but
  the last and then the terminal call with \<^verbatim>\<open>done=True\<close>.
\<close>

type_synonym 's step = "'s \<times> int \<times> real \<times> 's"

fun accumulate ::
  "'s step list \<Rightarrow> ('s, 'x, 'xn, 'w) MonteCarlo \<Rightarrow> ('x, 'w) world
     \<Rightarrow> error option \<times> ('s, 'x, 'xn, 'w) MonteCarlo \<times> ('x, 'w) world" where
  "accumulate [] self w = (None, self, w)"
| "accumulate ((s, a, r, s_next) # ts) self w =
     (case MonteCarlo_update s a r s_next False self w of
        (Some e, self1, w1) \<Rightarrow> (Some e, self1, w1)
      | (None, self1, w1) \<Rightarrow> accumulate ts self1 w1)"

fun run_episode ::
  "'s step list \<Rightarrow> 's step \<Rightarrow> ('s, 'x, 'xn, 'w) MonteCarlo \<Rightarrow> ('x, 'w) world
     \<Rightarrow> error option \<times> ('s, 'x, 'xn, 'w) MonteCarlo \<times> ('x, 'w) world" where
  "run_episode ts (s, a, r, s_next) self w =
     (case accumulate ts self w of
        (Some e, self1, w1) \<Rightarrow> (Some e, self1, w1)
      | (None, self1, w1) \<Rightarrow> MonteCarlo_update s a r s_next True self1 w1)"

text \<open>What a caller observes of a call: the exception, if any, and the approximator.\<close>

definition outcome :: "error option \<times> 'a \<times> 'b \<Rightarrow> error option \<times> 'b" where
  "outcome r = (fst r, snd (snd r))"

fun action :: "'s step \<Rightarrow> int" where
  "action (s, a, r, s_next) = a"

fun reward :: "'s step \<Rightarrow> real" where
  "reward (s, a, r, s_next) = r"

text \<open>The feature row \<^verbatim>\<open>X\<close> that \<^verbatim>\<open>preprocess_transition\<close> computes for a step.\<close>

fun features :: "('s, 'x, 'xn, 'w) MonteCarlo \<Rightarrow> 's step \<Rightarrow> 'x" where
  "features self (s, a, r, s_next) =
     vf_X (MonteCarlo.value_function self) s
       (if MODELTYPE (MonteCarlo.value_function self) = 1 then Some a else None)"

text \<open>The preprocessed transition of a step, for the two recognised model kinds.\<close>

fun pre :: "('s, 'x, 'xn, 'w) MonteCarlo \<Rightarrow> 's step \<Rightarrow> ('x, 'xn) transition" where
  "pre self (s, a, r, s_next) =
     (features self (s, a, r, s_next), [a], [r],
      vf_preprocess_typeII (MonteCarlo.value_function self) s_next)"

subsection \<open>The specification's discounted return\<close>






subsection \<open>Example objects\<close>

text \<open>
  A value function over states \<open>0, 1, 2, \<dots>\<close> whose feature row is the state and whose
  parameters are one row of action values: \<^verbatim>\<open>batch_eval\<close> returns that row and \<^verbatim>\<open>update\<close>
  stores the first row of a type-II target.
\<close>

definition example_value_function :: "int \<Rightarrow> (nat, nat, nat, real list) value_function" where
  "example_value_function k =
     \<lparr>MODELTYPE = k,
      vf_X = (\<lambda>s a. s),
      vf_preprocess_typeII = (\<lambda>s. s),
      vf_batch_eval = (\<lambda>p x. [p]),
      vf_update = (\<lambda>x y p. case y of TargetI g \<Rightarrow> p | TargetII rows \<Rightarrow> hd rows)\<rparr>"

definition example_MonteCarlo :: "int \<Rightarrow> real \<Rightarrow> (nat, nat, nat, real list) MonteCarlo" where
  "example_MonteCarlo k g =
     \<lparr>experience_cache = [], policy = None, value_function = example_value_function k,
      gamma = g\<rparr>"

definition example_world :: "(nat, real list) world" where
  "example_world = \<lparr>params = [0, 0], trace = []\<rparr>"

section \<open>Lemmas\<close>

lemmas eval_simps =
  example_value_function_def example_MonteCarlo_def example_world_def
  MonteCarlo_update_def preprocess_transition_def cache_append_def cache_bool_def
  cache_pop_def replay.simps BaseValueAlgorithm_Y_def call_update_def assign_taken_def
  np_index_def outcome_def Let_def

subsection \<open>The replay loop, one iteration at a time\<close>

lemma replay_Nil:
  "experience_cache self = [] \<Longrightarrow> replay self G w = (None, self, w)"
  by (simp add: replay.simps [of self] cache_bool_def)

lemma replay_snoc:
  "experience_cache self = c @ [(X, A, R, X_next)] \<Longrightarrow>
   replay self G w =
     (case np_add R (np_scale (gamma self) G) of
        Inl e \<Rightarrow> (Some e, self\<lparr>experience_cache := c\<rparr>, w)
      | Inr G1 \<Rightarrow>
          (case BaseValueAlgorithm_Y (self\<lparr>experience_cache := c\<rparr>) X A G1 w of
             (Inl e, w1) \<Rightarrow> (Some e, self\<lparr>experience_cache := c\<rparr>, w1)
           | (Inr Yv, w1) \<Rightarrow>
               replay (self\<lparr>experience_cache := c\<rparr>) G1
                 (call_update (self\<lparr>experience_cache := c\<rparr>) X Yv w1)))"
  by (simp add: replay.simps [of self] cache_bool_def cache_pop_def Let_def)




lemma pre_cache_irrelevant: "pre (self\<lparr>experience_cache := c\<rparr>) = pre self"
  by (intro ext) auto

lemma pre_eq:
  "pre self t = (features self t, [action t], [reward t],
     vf_preprocess_typeII (MonteCarlo.value_function self) (snd (snd (snd t))))"
  by (cases t) auto

subsection \<open>Fields that no update touches\<close>

lemma replay_fields_aux:
  "experience_cache self = c \<Longrightarrow> replay self G w = (e, self', w') \<Longrightarrow>
     gamma self' = gamma self
     \<and> MonteCarlo.value_function self' = MonteCarlo.value_function self
     \<and> policy self' = policy self"
proof (induction c arbitrary: self G w rule: rev_induct)
  case Nil
  then show ?case by (auto simp: replay_Nil)
next
  case (snoc t c)
  obtain X A R Xn where t: "t = (X, A, R, Xn)" by (cases t) auto
  let ?self1 = "self\<lparr>experience_cache := c\<rparr>"
  have c1: "experience_cache ?self1 = c" by simp
  note IH = snoc.IH [OF c1]
  from snoc.prems show ?case
    unfolding t
    by (auto simp: replay_snoc split: sum.splits prod.splits dest!: IH)
qed

lemmas replay_fields = replay_fields_aux [OF refl]

lemma update_fields:
  "MonteCarlo_update s a r s_next done self w = (e, self', w') \<Longrightarrow>
     gamma self' = gamma self
     \<and> MonteCarlo.value_function self' = MonteCarlo.value_function self
     \<and> policy self' = policy self"
  by (auto simp: MonteCarlo_update_def Let_def split: sum.splits if_splits dest!: replay_fields)

lemma accumulate_fields:
  "accumulate ts self w = (e, self', w') \<Longrightarrow>
     MonteCarlo.value_function self' = MonteCarlo.value_function self"
proof (induction ts arbitrary: self w)
  case Nil
  then show ?case by simp
next
  case (Cons t ts)
  obtain s a r s_next where t: "t = (s, a, r, s_next)" by (cases t) auto
  obtain e1 self1 w1 where u: "MonteCarlo_update s a r s_next False self w = (e1, self1, w1)"
    by (cases "MonteCarlo_update s a r s_next False self w") auto
  from update_fields [OF u]
  have f: "MonteCarlo.value_function self1 = MonteCarlo.value_function self"
    by simp
  show ?case
  proof (cases e1)
    case None
    with Cons.prems u t have "accumulate ts self1 w1 = (e, self', w')" by simp
    from Cons.IH [OF this] f show ?thesis by simp
  next
    case (Some err)
    with Cons.prems u t f show ?thesis by auto
  qed
qed

subsection \<open>Calls that return\<close>

lemma preprocess_transition_ok:
  "MODELTYPE (MonteCarlo.value_function self) = 1
     \<or> MODELTYPE (MonteCarlo.value_function self) = 2 \<Longrightarrow>
   preprocess_transition self s a r s_next = Inr (pre self (s, a, r, s_next))"
  by (auto simp: preprocess_transition_def Let_def)

lemma update_returns_kind:
  "MonteCarlo_update s a r s_next done self w = (None, self', w') \<Longrightarrow>
     MODELTYPE (MonteCarlo.value_function self) = 1
     \<or> MODELTYPE (MonteCarlo.value_function self) = 2"
  by (auto simp: MonteCarlo_update_def preprocess_transition_def Let_def split: if_splits)

lemma update_not_done:
  "MODELTYPE (MonteCarlo.value_function self) = 1
     \<or> MODELTYPE (MonteCarlo.value_function self) = 2 \<Longrightarrow>
   MonteCarlo_update s a r s_next False self w =
     (None, self\<lparr>experience_cache := experience_cache self @ [pre self (s, a, r, s_next)]\<rparr>, w)"
  by (simp add: MonteCarlo_update_def preprocess_transition_ok cache_append_def del: pre.simps)

lemma update_done_replay:
  "MODELTYPE (MonteCarlo.value_function self) = 1
     \<or> MODELTYPE (MonteCarlo.value_function self) = 2 \<Longrightarrow>
   MonteCarlo_update s a r s_next True self w =
     replay (self\<lparr>experience_cache := experience_cache self @ [pre self (s, a, r, s_next)]\<rparr>)
       (Scalar 0) w"
  by (simp add: MonteCarlo_update_def preprocess_transition_ok cache_append_def del: pre.simps)

lemma accumulate_ok:
  "MODELTYPE (MonteCarlo.value_function self) = 1
     \<or> MODELTYPE (MonteCarlo.value_function self) = 2 \<Longrightarrow>
   accumulate ts self w =
     (None, self\<lparr>experience_cache := experience_cache self @ map (pre self) ts\<rparr>, w)"
proof (induction ts arbitrary: self)
  case Nil
  then show ?case by simp
next
  case (Cons t ts)
  obtain s a r s_next where t: "t = (s, a, r, s_next)" by (cases t) auto
  let ?self1 = "self\<lparr>experience_cache := experience_cache self @ [pre self t]\<rparr>"
  have k1: "MODELTYPE (MonteCarlo.value_function ?self1) = 1
      \<or> MODELTYPE (MonteCarlo.value_function ?self1) = 2"
    using Cons.prems by simp
  have u: "MonteCarlo_update s a r s_next False self w = (None, ?self1, w)"
    using Cons.prems by (simp add: update_not_done t del: pre.simps)
  show ?case
    using Cons.IH [OF k1] u by (simp add: t pre_cache_irrelevant del: pre.simps)
qed

subsection \<open>The trace of a replay\<close>

lemma update_calls_append: "update_calls (xs @ ys) = update_calls xs @ update_calls ys"
  by (induction xs rule: update_calls.induct) auto

lemma Y_trace:
  "BaseValueAlgorithm_Y self X A G w = (yr, w1) \<Longrightarrow>
     params w1 = params w \<and> (\<exists>evs. trace w1 = trace w @ evs \<and> update_calls evs = [])"
  by (auto simp: BaseValueAlgorithm_Y_def Let_def split: if_splits sum.splits)

lemma replay_trace_aux:
  "experience_cache self = c \<Longrightarrow> replay self G w = (None, self', w') \<Longrightarrow>
     experience_cache self' = [] \<and>
     (\<exists>evs. trace w' = trace w @ evs \<and> map fst (update_calls evs) = rev (map fst c))"
proof (induction c arbitrary: self G w rule: rev_induct)
  case Nil
  then show ?case by (auto simp: replay_Nil)
next
  case (snoc t c)
  obtain X A R Xn where t: "t = (X, A, R, Xn)" by (cases t) auto
  let ?self1 = "self\<lparr>experience_cache := c\<rparr>"
  have c1: "experience_cache ?self1 = c" by simp
  from snoc.prems obtain G1 Yv w1 where
    g: "np_add R (np_scale (gamma self) G) = Inr G1" and
    y: "BaseValueAlgorithm_Y ?self1 X A G1 w = (Inr Yv, w1)" and
    r: "replay ?self1 G1 (call_update ?self1 X Yv w1) = (None, self', w')"
    unfolding t by (auto simp: replay_snoc split: sum.splits prod.splits)
  from Y_trace [OF y] obtain evs1 where
    e1: "trace w1 = trace w @ evs1" "update_calls evs1 = []" by auto
  from snoc.IH [OF c1 r] obtain evs2 where
    e2: "experience_cache self' = []"
      "trace w' = trace (call_update ?self1 X Yv w1) @ evs2"
      "map fst (update_calls evs2) = rev (map fst c)" by auto
  have "trace w' = trace w @ (evs1 @ [update_called X Yv] @ evs2)"
    using e1 e2 by (simp add: call_update_def)
  moreover
  have "map fst (update_calls (evs1 @ [update_called X Yv] @ evs2)) = rev (map fst (c @ [t]))"
    using e1 e2 by (simp add: update_calls_append t)
  ultimately show ?case using e2(1) by blast
qed

lemmas replay_trace = replay_trace_aux [OF refl]

subsection \<open>The returns of a replay\<close>











subsection \<open>Indexed assignment\<close>

lemma np_index_less: "np_index n i = Some k \<Longrightarrow> k < n"
  by (auto simp: np_index_def split: if_splits)

lemma set_taken_shape:
  "set_taken rows avs = Inr rows' \<Longrightarrow>
     length rows' = length rows \<and> length avs \<le> length rows
     \<and> map length rows' = map length rows"
  by (induction rows avs arbitrary: rows' rule: set_taken.induct)
     (auto split: option.splits sum.splits)

lemma set_taken_rest:
  "set_taken rows avs = Inr rows' \<Longrightarrow> length avs \<le> i \<Longrightarrow> i < length rows \<Longrightarrow>
     rows' ! i = rows ! i"
proof (induction rows avs arbitrary: rows' i rule: set_taken.induct)
  case (3 row rows a v avs)
  then show ?case
    by (cases i) (auto split: option.splits sum.splits)
qed auto

lemma set_taken_entry:
  "set_taken rows avs = Inr rows' \<Longrightarrow> i < length avs \<Longrightarrow>
     \<exists>k. np_index (length (rows ! i)) (fst (avs ! i)) = Some k \<and> k < length (rows ! i)
       \<and> rows' ! i = (rows ! i)[k := snd (avs ! i)]"
proof (induction rows avs arbitrary: rows' i rule: set_taken.induct)
  case (3 row rows a v avs)
  then show ?case
    by (cases i) (auto split: option.splits sum.splits dest: np_index_less)
qed auto

lemma broadcast_to_length: "broadcast_to G n = Inr vs \<Longrightarrow> length vs = n"
  by (cases G) (auto split: if_splits)

lemma Y_typeII_aux:
  assumes k: "MODELTYPE (MonteCarlo.value_function self) = 2"
    and y: "BaseValueAlgorithm_Y self X A G w = (Inr Yv, w')"
  shows "\<exists>rows vs.
      Yv = TargetII rows \<and> broadcast_to G (length A) = Inr vs
      \<and> set_taken (vf_batch_eval (MonteCarlo.value_function self) (params w) X) (zip A vs)
          = Inr rows
      \<and> w' = w\<lparr>trace := trace w @ [batch_eval_called X]\<rparr>"
  using k y
  by (auto simp: BaseValueAlgorithm_Y_def assign_taken_def Let_def split: sum.splits)

section \<open>The claims\<close>



text \<open>
  C2. For a type-II approximator (\<^verbatim>\<open>MODELTYPE == 2\<close>), when \<^verbatim>\<open>Y(X, A, G)\<close> returns, the
  target has the shape of the prediction \<^verbatim>\<open>batch_eval(X)\<close> made with the approximator's
  current parameters; in every row \<open>i\<close> that has an action, the entry at the index
  \<^verbatim>\<open>A[i]\<close> (a negative index counting from the end, as numpy reads it) is \<^verbatim>\<open>G[i]\<close> (\<^verbatim>\<open>G\<close>
  broadcast to the length of \<^verbatim>\<open>A\<close>) and every other entry is the prediction's; rows
  beyond the length of \<^verbatim>\<open>A\<close> are the prediction's.
\<close>

theorem Y_typeII_target:
  assumes k: "MODELTYPE (MonteCarlo.value_function self) = 2"
    and y: "BaseValueAlgorithm_Y self X A G w = (Inr Yv, w')"
  shows "\<exists>rows vs.
      Yv = TargetII rows \<and> broadcast_to G (length A) = Inr vs
      \<and> (\<forall>gs. G = Arr1 gs \<longrightarrow> length gs = length A \<longrightarrow> vs = gs)
      \<and> (\<forall>c. G = Scalar c \<longrightarrow> vs = replicate (length A) c)
      \<and> length A \<le> length (vf_batch_eval (MonteCarlo.value_function self) (params w) X)
      \<and> map length rows
          = map length (vf_batch_eval (MonteCarlo.value_function self) (params w) X)
      \<and> (\<forall>i<length A. \<exists>k.
            np_index (length (vf_batch_eval (MonteCarlo.value_function self) (params w) X ! i))
              (A ! i) = Some k
            \<and> k < length (rows ! i) \<and> rows ! i ! k = vs ! i
            \<and> (\<forall>j. j \<noteq> k \<longrightarrow>
                  rows ! i ! j
                    = vf_batch_eval (MonteCarlo.value_function self) (params w) X ! i ! j))
      \<and> (\<forall>i. length A \<le> i \<longrightarrow> i < length rows \<longrightarrow>
            rows ! i = vf_batch_eval (MonteCarlo.value_function self) (params w) X ! i)"
proof -
  let ?P = "vf_batch_eval (MonteCarlo.value_function self) (params w) X"
  from Y_typeII_aux [OF k y] obtain rows vs where
    yv: "Yv = TargetII rows" and b: "broadcast_to G (length A) = Inr vs"
    and s: "set_taken ?P (zip A vs) = Inr rows" by blast
  have lv: "length vs = length A" using b by (rule broadcast_to_length)
  have lz: "length (zip A vs) = length A" using lv by simp
  note sh = set_taken_shape [OF s]
  have b1: "\<forall>gs. G = Arr1 gs \<longrightarrow> length gs = length A \<longrightarrow> vs = gs"
    using b by auto
  have b2: "\<forall>c. G = Scalar c \<longrightarrow> vs = replicate (length A) c"
    using b by auto
  have e: "\<forall>i<length A. \<exists>k. np_index (length (?P ! i)) (A ! i) = Some k
            \<and> k < length (rows ! i) \<and> rows ! i ! k = vs ! i
            \<and> (\<forall>j. j \<noteq> k \<longrightarrow> rows ! i ! j = ?P ! i ! j)"
  proof (intro allI impI)
    fix i assume i: "i < length A"
    then have iz: "i < length (zip A vs)" using lz by simp
    from set_taken_entry [OF s iz] obtain k where
      k: "np_index (length (?P ! i)) (fst (zip A vs ! i)) = Some k" "k < length (?P ! i)"
        "rows ! i = (?P ! i)[k := snd (zip A vs ! i)]" by blast
    have z: "zip A vs ! i = (A ! i, vs ! i)" using i lv by simp
    show "\<exists>k. np_index (length (?P ! i)) (A ! i) = Some k
            \<and> k < length (rows ! i) \<and> rows ! i ! k = vs ! i
            \<and> (\<forall>j. j \<noteq> k \<longrightarrow> rows ! i ! j = ?P ! i ! j)"
      using k z by (intro exI [of _ k]) simp
  qed
  have r: "\<forall>i. length A \<le> i \<longrightarrow> i < length rows \<longrightarrow> rows ! i = ?P ! i"
    using set_taken_rest [OF s] lz sh by simp
  show ?thesis
    using yv b b1 b2 sh lz e r by (intro exI [of _ rows] exI [of _ vs]) simp
qed

theorem Y_typeII_target_witness:
  "MODELTYPE (MonteCarlo.value_function (example_MonteCarlo 2 0.5)) = 2
   \<and> BaseValueAlgorithm_Y (example_MonteCarlo 2 0.5) 0 [1] (Arr1 [7]) example_world
       = (Inr (TargetII [[0, 7]]), \<lparr>params = [0, 0], trace = [batch_eval_called 0]\<rparr>)
   \<and> vf_batch_eval (MonteCarlo.value_function (example_MonteCarlo 2 0.5))
        (params example_world) 0 = [[0, 0]]
   \<and> (\<exists>rows vs. TargetII [[0, 7]] = TargetII rows \<and> broadcast_to (Arr1 [7]) (length [1::int]) = Inr vs
        \<and> rows ! 0 ! 1 = vs ! 0 \<and> rows ! 0 ! 0 = 0)"
proof -
  have k: "MODELTYPE (MonteCarlo.value_function (example_MonteCarlo 2 0.5)) = 2"
    by (simp add: eval_simps)
  have y: "BaseValueAlgorithm_Y (example_MonteCarlo 2 0.5) 0 [1] (Arr1 [7]) example_world
       = (Inr (TargetII [[0, 7]]), \<lparr>params = [0, 0], trace = [batch_eval_called 0]\<rparr>)"
    by (simp add: eval_simps)
  have p: "vf_batch_eval (MonteCarlo.value_function (example_MonteCarlo 2 0.5))
        (params example_world) 0 = [[0, 0]]"
    by (simp add: eval_simps)
  from Y_typeII_target [OF k y] obtain rows vs where
    "TargetII [[0, 7]] = TargetII rows" "broadcast_to (Arr1 [7]) (length [1::int]) = Inr vs"
    "\<forall>i<length [1::int]. \<exists>k.
            np_index (length (vf_batch_eval (MonteCarlo.value_function (example_MonteCarlo 2 0.5)) (params example_world) 0 ! i))
              ([1] ! i) = Some k
            \<and> k < length (rows ! i) \<and> rows ! i ! k = vs ! i
            \<and> (\<forall>j. j \<noteq> k \<longrightarrow>
                  rows ! i ! j
                    = vf_batch_eval (MonteCarlo.value_function (example_MonteCarlo 2 0.5)) (params example_world) 0 ! i ! j)"
    by blast
  then have "\<exists>rows vs. TargetII [[0, 7]] = TargetII rows \<and> broadcast_to (Arr1 [7]) (length [1::int]) = Inr vs
        \<and> rows ! 0 ! 1 = vs ! 0 \<and> rows ! 0 ! 0 = 0"
    by (auto simp: p np_index_def)
  with k y p show ?thesis by blast
qed

text \<open>
  C3. An episode that starts from an empty cache, makes its calls with \<^verbatim>\<open>done=False\<close> and
  then a terminal call with \<^verbatim>\<open>done=True\<close> that returns: before the terminal call the
  cache holds one transition per earlier call and the approximator has not been touched;
  the terminal call issues exactly as many approximator updates as transitions were
  appended in the episode (the earlier ones and its own), and leaves the cache empty.
\<close>

theorem MonteCarlo_episode_drains_cache:
  assumes e: "experience_cache self = []"
    and a: "accumulate ts self w = (None, self1, w1)"
    and u: "MonteCarlo_update s a r s_next True self1 w1 = (None, self2, w2)"
  shows "length (experience_cache self1) = length ts \<and> w1 = w
    \<and> experience_cache self2 = []
    \<and> (\<exists>evs. trace w2 = trace w1 @ evs \<and> length (update_calls evs) = length ts + 1)"
proof -
  have k1: "MODELTYPE (MonteCarlo.value_function self1) = 1
      \<or> MODELTYPE (MonteCarlo.value_function self1) = 2"
    using u by (rule update_returns_kind)
  have k: "MODELTYPE (MonteCarlo.value_function self) = 1
      \<or> MODELTYPE (MonteCarlo.value_function self) = 2"
    using k1 accumulate_fields [OF a] by simp
  have s1: "self1 = self\<lparr>experience_cache := map (pre self) ts\<rparr>" and w1: "w1 = w"
    using accumulate_ok [OF k, of ts w] a e by simp_all
  have l: "length (experience_cache self1) = length ts"
    by (simp add: s1)
  let ?self' = "self1\<lparr>experience_cache := experience_cache self1 @ [pre self1 (s, a, r, s_next)]\<rparr>"
  have "replay ?self' (Scalar 0) w1 = (None, self2, w2)"
    using update_done_replay [OF k1, of s a r s_next w1] u by simp
  from replay_trace [OF this] obtain evs where
    c: "experience_cache self2 = []" and t: "trace w2 = trace w1 @ evs"
    and m: "map fst (update_calls evs) = rev (map fst (experience_cache ?self'))"
    by blast
  have "length (map fst (update_calls evs)) = length (rev (map fst (experience_cache ?self')))"
    using m by simp
  then have "length (update_calls evs) = length ts + 1"
    using l by simp
  with l w1 c t show ?thesis by blast
qed

theorem MonteCarlo_episode_drains_cache_witness:
  "experience_cache (example_MonteCarlo 1 0.5) = []
   \<and> accumulate [(0, 0, 1, 1)] (example_MonteCarlo 1 0.5) example_world
       = (None, (example_MonteCarlo 1 0.5)\<lparr>experience_cache := [(0, [0], [1], 1)]\<rparr>,
          example_world)
   \<and> MonteCarlo_update 1 0 2 2 True
        ((example_MonteCarlo 1 0.5)\<lparr>experience_cache := [(0, [0], [1], 1)]\<rparr>) example_world
       = (None, example_MonteCarlo 1 0.5,
          \<lparr>params = [0, 0],
           trace = [update_called 1 (TargetI (Arr1 [2])), update_called 0 (TargetI (Arr1 [2]))]\<rparr>)
   \<and> experience_cache (example_MonteCarlo 1 0.5) = []
   \<and> length (update_calls
        [update_called (1::nat) (TargetI (Arr1 [2])), update_called 0 (TargetI (Arr1 [2]))])
      = length [(0::nat, 0::int, 1::real, 1::nat)] + 1"
proof -
  have e: "experience_cache (example_MonteCarlo 1 0.5) = []"
    by (simp add: eval_simps)
  have a: "accumulate [(0, 0, 1, 1)] (example_MonteCarlo 1 0.5) example_world
       = (None, (example_MonteCarlo 1 0.5)\<lparr>experience_cache := [(0, [0], [1], 1)]\<rparr>,
          example_world)"
    by (simp add: eval_simps)
  have u: "MonteCarlo_update 1 0 2 2 True
        ((example_MonteCarlo 1 0.5)\<lparr>experience_cache := [(0, [0], [1], 1)]\<rparr>) example_world
       = (None, example_MonteCarlo 1 0.5,
          \<lparr>params = [0, 0],
           trace = [update_called 1 (TargetI (Arr1 [2])), update_called 0 (TargetI (Arr1 [2]))]\<rparr>)"
    by (simp add: eval_simps)
  from MonteCarlo_episode_drains_cache [OF e a u] e a u show ?thesis
    by simp
qed

text \<open>
  C4. A call of \<^verbatim>\<open>MonteCarlo.update\<close> with \<^verbatim>\<open>done=True\<close> that returns calls the
  approximator's update on the transition it has just appended first and then on the
  buffered transitions from the most recently appended back to the first. For an episode
  from an empty cache the updates are on the steps in reverse chronological order.
\<close>

theorem MonteCarlo_replay_reverse_order:
  "(MonteCarlo_update s a r s_next True self w = (None, self', w') \<longrightarrow>
      (\<exists>evs. trace w' = trace w @ evs
         \<and> map fst (update_calls evs)
             = features self (s, a, r, s_next) # rev (map fst (experience_cache self))))
   \<and> (experience_cache self = [] \<and> run_episode ts t self w = (None, self'', w'') \<longrightarrow>
      (\<exists>evs. trace w'' = trace w @ evs
         \<and> map fst (update_calls evs) = rev (map (features self) (ts @ [t]))))"
proof (intro conjI impI)
  assume u: "MonteCarlo_update s a r s_next True self w = (None, self', w')"
  have k: "MODELTYPE (MonteCarlo.value_function self) = 1
      \<or> MODELTYPE (MonteCarlo.value_function self) = 2"
    using u by (rule update_returns_kind)
  let ?self1 = "self\<lparr>experience_cache := experience_cache self @ [pre self (s, a, r, s_next)]\<rparr>"
  have "replay ?self1 (Scalar 0) w = (None, self', w')"
    using update_done_replay [OF k, of s a r s_next w] u by simp
  from replay_trace [OF this] obtain evs where
    "trace w' = trace w @ evs"
    "map fst (update_calls evs) = rev (map fst (experience_cache ?self1))"
    by blast
  then show "\<exists>evs. trace w' = trace w @ evs
         \<and> map fst (update_calls evs)
             = features self (s, a, r, s_next) # rev (map fst (experience_cache self))"
    by (intro exI [of _ evs]) simp
next
  assume h: "experience_cache self = [] \<and> run_episode ts t self w = (None, self'', w'')"
  obtain s a r s_next where t: "t = (s, a, r, s_next)" by (cases t) auto
  obtain e1 self1 w1 where a: "accumulate ts self w = (e1, self1, w1)"
    by (cases "accumulate ts self w") auto
  have e1: "e1 = None" and u: "MonteCarlo_update s a r s_next True self1 w1 = (None, self'', w'')"
    using h a t by (cases e1; simp)+
  have k1: "MODELTYPE (MonteCarlo.value_function self1) = 1
      \<or> MODELTYPE (MonteCarlo.value_function self1) = 2"
    using u by (rule update_returns_kind)
  have k: "MODELTYPE (MonteCarlo.value_function self) = 1
      \<or> MODELTYPE (MonteCarlo.value_function self) = 2"
    using k1 accumulate_fields [OF a] by simp
  have s1: "self1 = self\<lparr>experience_cache := map (pre self) ts\<rparr>" and w1: "w1 = w"
    using accumulate_ok [OF k, of ts w] a h by simp_all
  let ?self2 = "self\<lparr>experience_cache := map (pre self) (ts @ [t])\<rparr>"
  have "replay ?self2 (Scalar 0) w = (None, self'', w'')"
    using update_done_replay [OF k1, of s a r s_next w1] u
    by (simp add: s1 w1 t pre_cache_irrelevant del: pre.simps)
  from replay_trace [OF this] obtain evs where
    "trace w'' = trace w @ evs"
    "map fst (update_calls evs) = rev (map fst (experience_cache ?self2))"
    by blast
  then show "\<exists>evs. trace w'' = trace w @ evs
         \<and> map fst (update_calls evs) = rev (map (features self) (ts @ [t]))"
    by (intro exI [of _ evs]) (simp add: pre_eq del: pre.simps)
qed

theorem MonteCarlo_replay_reverse_order_witness:
  "run_episode [(10, 0, 1, 11), (11, 1, 2, 12)] (12, 0, 3, 13)
        (example_MonteCarlo 2 0.5) example_world
     = (None, example_MonteCarlo 2 0.5,
        \<lparr>params = [2.75, 3.5],
         trace = [batch_eval_called 12, update_called 12 (TargetII [[3, 0]]),
                  batch_eval_called 11, update_called 11 (TargetII [[3, 3.5]]),
                  batch_eval_called 10, update_called 10 (TargetII [[2.75, 3.5]])]\<rparr>)
   \<and> experience_cache (example_MonteCarlo 2 0.5) = []
   \<and> (\<exists>evs. [batch_eval_called 12, update_called 12 (TargetII [[3, 0]]),
              batch_eval_called 11, update_called 11 (TargetII [[3, 3.5]]),
              batch_eval_called 10, update_called 10 (TargetII [[2.75, 3.5]])]
             = trace example_world @ evs
         \<and> map fst (update_calls evs) = [12, 11, 10::nat])"
proof -
  have e: "experience_cache (example_MonteCarlo 2 0.5) = []"
    by (simp add: eval_simps)
  have r: "run_episode [(10, 0, 1, 11), (11, 1, 2, 12)] (12, 0, 3, 13)
        (example_MonteCarlo 2 0.5) example_world
     = (None, example_MonteCarlo 2 0.5,
        \<lparr>params = [2.75, 3.5],
         trace = [batch_eval_called 12, update_called 12 (TargetII [[3, 0]]),
                  batch_eval_called 11, update_called 11 (TargetII [[3, 3.5]]),
                  batch_eval_called 10, update_called 10 (TargetII [[2.75, 3.5]])]\<rparr>)"
    by (simp add: eval_simps)
  have "\<exists>evs. trace \<lparr>params = [2.75, 3.5::real],
         trace = [batch_eval_called 12, update_called 12 (TargetII [[3, 0]]),
                  batch_eval_called 11, update_called 11 (TargetII [[3, 3.5]]),
                  batch_eval_called 10, update_called 10 (TargetII [[2.75, 3.5]])]\<rparr>
             = trace example_world @ evs
         \<and> map fst (update_calls evs)
           = rev (map (features (example_MonteCarlo 2 0.5))
               ([(10, 0, 1, 11), (11, 1, 2, 12)] @ [(12, 0, 3, 13)]))"
    using MonteCarlo_replay_reverse_order
      [of 0 0 0 0 "example_MonteCarlo 2 0.5" example_world "example_MonteCarlo 2 0.5" example_world
        "[(10, 0, 1, 11), (11, 1, 2, 12)]" "(12, 0, 3, 13)" "example_MonteCarlo 2 0.5"
        "\<lparr>params = [2.75, 3.5],
         trace = [batch_eval_called 12, update_called 12 (TargetII [[3, 0]]),
                  batch_eval_called 11, update_called 11 (TargetII [[3, 3.5]]),
                  batch_eval_called 10, update_called 10 (TargetII [[2.75, 3.5]])]\<rparr>"]
      e r by blast
  then have "\<exists>evs. [batch_eval_called 12, update_called 12 (TargetII [[3, 0]]),
              batch_eval_called 11, update_called 11 (TargetII [[3, 3.5]]),
              batch_eval_called 10, update_called 10 (TargetII [[2.75, 3.5]])]
             = trace example_world @ evs
         \<and> map fst (update_calls evs) = [12, 11, 10::nat]"
    by (simp add: eval_simps)
  with e r show ?thesis by blast
qed

text \<open>
  C5. For a type-I approximator (\<^verbatim>\<open>MODELTYPE == 1\<close>), \<^verbatim>\<open>Y(X, A, G)\<close> returns \<^verbatim>\<open>G\<close> itself,
  whatever the approximator's parameters and predictions are, and calls nothing on the
  approximator: the trace and the parameters are unchanged.
\<close>

theorem Y_typeI_target:
  "MODELTYPE (MonteCarlo.value_function self) = 1 \<Longrightarrow>
     BaseValueAlgorithm_Y self X A G w = (Inr (TargetI G), w)"
  by (simp add: BaseValueAlgorithm_Y_def)

theorem Y_typeI_target_witness:
  "MODELTYPE (MonteCarlo.value_function (example_MonteCarlo 1 0.5)) = 1
   \<and> BaseValueAlgorithm_Y (example_MonteCarlo 1 0.5) 0 [1] (Arr1 [7]) example_world
       = (Inr (TargetI (Arr1 [7])), example_world)"
proof -
  have k: "MODELTYPE (MonteCarlo.value_function (example_MonteCarlo 1 0.5)) = 1"
    by (simp add: eval_simps)
  from k Y_typeI_target [OF k] show ?thesis by simp
qed

text \<open>
  C6. For a model kind other than 1 and 2 (here 3), \<^verbatim>\<open>preprocess_transition\<close> raises
  \<^verbatim>\<open>ValueError("bad MODELTYPE")\<close>, but \<^verbatim>\<open>Y\<close> does not: it has no \<^verbatim>\<open>else\<close> branch and fails
  with \<^verbatim>\<open>UnboundLocalError\<close> at \<^verbatim>\<open>return Y\<close>.
\<close>

theorem Y_unsupported_kind_unbound_local:
  "preprocess_transition (example_MonteCarlo 3 0.9) 0 0 1 1 = Inl ValueError_bad_MODELTYPE
   \<and> BaseValueAlgorithm_Y (example_MonteCarlo 3 0.9) 0 [0] (Arr1 [1]) example_world
       = (Inl UnboundLocalError, example_world)"
  by (simp add: eval_simps)

text \<open>
  C7. A call of \<^verbatim>\<open>MonteCarlo.update\<close> with \<^verbatim>\<open>done=False\<close> never calls the approximator
  (the parameters and the trace are unchanged, whether the call returns or raises). The
  call returns exactly when the model kind is 1 or 2, and then it appends exactly the
  preprocessed transition to the end of the cache, whose length grows by one, and changes
  nothing else.
\<close>

theorem MonteCarlo_update_not_done:
  "snd (snd (MonteCarlo_update s a r s_next False self w)) = w
   \<and> (MODELTYPE (MonteCarlo.value_function self) = 1
        \<or> MODELTYPE (MonteCarlo.value_function self) = 2 \<longrightarrow>
      (\<exists>t. preprocess_transition self s a r s_next = Inr t
         \<and> MonteCarlo_update s a r s_next False self w
             = (None, self\<lparr>experience_cache := experience_cache self @ [t]\<rparr>, w)
         \<and> length (experience_cache (fst (snd (MonteCarlo_update s a r s_next False self w))))
             = length (experience_cache self) + 1))
   \<and> (fst (MonteCarlo_update s a r s_next False self w) = None \<longrightarrow>
        MODELTYPE (MonteCarlo.value_function self) = 1
        \<or> MODELTYPE (MonteCarlo.value_function self) = 2)"
proof (intro conjI impI)
  show "snd (snd (MonteCarlo_update s a r s_next False self w)) = w"
    by (simp add: MonteCarlo_update_def split: sum.splits)
next
  assume k: "MODELTYPE (MonteCarlo.value_function self) = 1
        \<or> MODELTYPE (MonteCarlo.value_function self) = 2"
  show "\<exists>t. preprocess_transition self s a r s_next = Inr t
         \<and> MonteCarlo_update s a r s_next False self w
             = (None, self\<lparr>experience_cache := experience_cache self @ [t]\<rparr>, w)
         \<and> length (experience_cache (fst (snd (MonteCarlo_update s a r s_next False self w))))
             = length (experience_cache self) + 1"
    by (simp add: update_not_done [OF k] preprocess_transition_ok [OF k] del: pre.simps)
next
  assume "fst (MonteCarlo_update s a r s_next False self w) = None"
  then show "MODELTYPE (MonteCarlo.value_function self) = 1
        \<or> MODELTYPE (MonteCarlo.value_function self) = 2"
    by (auto simp: MonteCarlo_update_def preprocess_transition_def Let_def split: if_splits)
qed

theorem MonteCarlo_update_not_done_witness:
  "(MODELTYPE (MonteCarlo.value_function (example_MonteCarlo 2 0.5)) = 1
      \<or> MODELTYPE (MonteCarlo.value_function (example_MonteCarlo 2 0.5)) = 2)
   \<and> MonteCarlo_update 4 1 7 5 False (example_MonteCarlo 2 0.5) example_world
       = (None, (example_MonteCarlo 2 0.5)\<lparr>experience_cache := [(4, [1], [7], 5)]\<rparr>,
          example_world)
   \<and> fst (MonteCarlo_update 4 1 7 5 False (example_MonteCarlo 2 0.5) example_world) = None"
  using MonteCarlo_update_not_done [of 4 1 7 5 "example_MonteCarlo 2 0.5" example_world]
  by (simp add: eval_simps)

text \<open>
  C8. Constructing the algorithm with an object that is neither a value function nor a
  value-based policy raises \<^verbatim>\<open>TypeError\<close>: no algorithm object results. Given a policy,
  the algorithm stores the policy and, as its value function, the value function the
  policy wraps; given a value function, it stores that value function and no policy.
\<close>

theorem MonteCarlo_init_resolves:
  "MonteCarlo_init Other_instance g = Inl TypeError
   \<and> MonteCarlo_init (ValuePolicy_instance p) g
       = Inr \<lparr>experience_cache = [], policy = Some p,
              value_function = ValuePolicy.value_function p, gamma = g\<rparr>
   \<and> MonteCarlo_init (BaseValueFunction_instance v) g
       = Inr \<lparr>experience_cache = [], policy = None, value_function = v, gamma = g\<rparr>"
  by (simp add: MonteCarlo_init_def)

text \<open>
  C9. If \<^verbatim>\<open>preprocess_transition\<close> raises during \<^verbatim>\<open>MonteCarlo.update\<close>, the call raises the
  same exception with the algorithm object (its cache included) and the approximator
  (parameters and trace of calls) unchanged, for either value of \<^verbatim>\<open>done\<close>.
\<close>

theorem MonteCarlo_update_preprocess_raises:
  "preprocess_transition self s a r s_next = Inl e \<Longrightarrow>
     MonteCarlo_update s a r s_next done self w = (Some e, self, w)"
  by (simp add: MonteCarlo_update_def)

theorem MonteCarlo_update_preprocess_raises_witness:
  "preprocess_transition (example_MonteCarlo 3 0.9) 0 0 1 1 = Inl ValueError_bad_MODELTYPE
   \<and> MonteCarlo_update 0 0 1 1 True (example_MonteCarlo 3 0.9) example_world
       = (Some ValueError_bad_MODELTYPE, example_MonteCarlo 3 0.9, example_world)
   \<and> MonteCarlo_update 0 0 1 1 False (example_MonteCarlo 3 0.9) example_world
       = (Some ValueError_bad_MODELTYPE, example_MonteCarlo 3 0.9, example_world)"
proof -
  have p: "preprocess_transition (example_MonteCarlo 3 0.9) 0 0 1 1 = Inl ValueError_bad_MODELTYPE"
    by (simp add: preprocess_transition_def example_MonteCarlo_def example_value_function_def)
  from p MonteCarlo_update_preprocess_raises [OF p] show ?thesis by simp
qed

text \<open>
  C10. Whatever the arguments and whether it returns or raises, a call of
  \<^verbatim>\<open>MonteCarlo.update\<close> leaves \<^verbatim>\<open>gamma\<close>, the value-function binding and the policy
  binding of the algorithm as they were.
\<close>

theorem MonteCarlo_update_frame:
  "gamma (fst (snd (MonteCarlo_update s a r s_next done self w))) = gamma self
   \<and> MonteCarlo.value_function (fst (snd (MonteCarlo_update s a r s_next done self w)))
       = MonteCarlo.value_function self
   \<and> policy (fst (snd (MonteCarlo_update s a r s_next done self w))) = policy self"
  using update_fields [of s a r s_next "done" self w
      "fst (MonteCarlo_update s a r s_next done self w)"
      "fst (snd (MonteCarlo_update s a r s_next done self w))"
      "snd (snd (MonteCarlo_update s a r s_next done self w))"]
  by simp

end
